theory Spec2Isabelle
  imports Main "HOL-Library.Word"
begin

unbundle bit_operations_syntax

section \<open>The peer fanout registry (connmgr.cpp)\<close>

text \<open>
  A \<open>CNode_ptr\<close> is a pointer to a connected peer; only its identity matters to the
  registry, so it is a natural number. The three membership "sets" of \<open>CConnMgr\<close> are
  \<open>std::vector\<close>s and are modelled as lists, in the order of the vector.

  The registry calls three methods of the peer object, which lives outside this unit:
  \<open>AddRef\<close>, \<open>Release\<close> and \<open>PushMessage\<close>. The model records every such
  call, in order, in the trace \<open>vCalls\<close>, so that "a message is sent" and "no message
  is sent" are statements about the trace. Logging is not modelled.
\<close>

type_synonym CNode_ptr = nat

text \<open>The message commands of \<open>NetMsgType\<close>; the registry sends one of them.\<close>

datatype NetMsgType = XPEDITEDREQUEST

datatype peer_call =
    AddRef CNode_ptr
  | Release CNode_ptr
  | PushMessage CNode_ptr NetMsgType "64 word"

definition EXPEDITED_STOP :: "64 word" where "EXPEDITED_STOP = 1"
definition EXPEDITED_BLOCKS :: "64 word" where "EXPEDITED_BLOCKS = 2"
definition EXPEDITED_TXNS :: "64 word" where "EXPEDITED_TXNS = 4"

text \<open>
  The two maxima are declared in connmgr.h, which is not part of the sources at hand;
  they are compared with \<open>size()\<close> and are taken as natural numbers.
\<close>

record CConnMgr =
  vSendExpeditedBlocks :: "CNode_ptr list"
  vSendExpeditedTxs :: "CNode_ptr list"
  vExpeditedUpstream :: "CNode_ptr list"
  nExpeditedBlocksMax :: nat
  nExpeditedTxsMax :: nat
  vCalls :: "peer_call list"

text \<open>\<open>std::find\<close>: the position of the first occurrence, or \<open>size()\<close> for \<open>end()\<close>.\<close>

fun FindNode :: "CNode_ptr list \<Rightarrow> CNode_ptr \<Rightarrow> nat" where
  "FindNode [] pnode = 0"
| "FindNode (x # vNodes) pnode = (if x = pnode then 0 else Suc (FindNode vNodes pnode))"

text \<open>\<open>std::vector::erase\<close> at a position inside the vector.\<close>

definition vector_erase :: "'a list \<Rightarrow> nat \<Rightarrow> 'a list" where
  "vector_erase v i = take i v @ drop (Suc i) v"

text \<open>
  \<open>AddNode\<close> and \<open>RemoveNode\<close> work on a vector and on the peer; they take and return
  the trace of peer calls together with the vector.
\<close>

definition AddNode :: "peer_call list \<times> CNode_ptr list \<Rightarrow> CNode_ptr \<Rightarrow> peer_call list \<times> CNode_ptr list" where
  "AddNode st pnode = (case st of (tr, vNodes) \<Rightarrow> (tr @ [AddRef pnode], vNodes @ [pnode]))"

definition RemoveNode :: "peer_call list \<times> CNode_ptr list \<Rightarrow> CNode_ptr \<Rightarrow> (peer_call list \<times> CNode_ptr list) \<times> bool" where
  "RemoveNode st pnode =
     (case st of (tr, vNodes) \<Rightarrow>
        (let Node = FindNode vNodes pnode in
           if Node \<noteq> length vNodes
           then ((tr @ [Release pnode], vector_erase vNodes Node), True)
           else ((tr, vNodes), False)))"

definition CConnMgr_ctor :: CConnMgr where
  "CConnMgr_ctor =
     \<lparr> vSendExpeditedBlocks = [], vSendExpeditedTxs = [], vExpeditedUpstream = [],
       nExpeditedBlocksMax = 32, nExpeditedTxsMax = 32, vCalls = [] \<rparr>"

definition EnableExpeditedSends :: "CConnMgr \<Rightarrow> CNode_ptr \<Rightarrow> bool \<Rightarrow> bool \<Rightarrow> bool \<Rightarrow> CConnMgr" where
  "EnableExpeditedSends s pnode fBlocks fTxs fForceIfFull =
     (let s1 =
            (if fBlocks \<and> FindNode (vSendExpeditedBlocks s) pnode = length (vSendExpeditedBlocks s)
             then (if fForceIfFull \<or> length (vSendExpeditedBlocks s) < nExpeditedBlocksMax s
                   then (case AddNode (vCalls s, vSendExpeditedBlocks s) pnode of
                           (tr, v) \<Rightarrow> s\<lparr>vCalls := tr, vSendExpeditedBlocks := v\<rparr>)
                   else s)
             else s)
      in (if fTxs \<and> FindNode (vSendExpeditedTxs s1) pnode = length (vSendExpeditedTxs s1)
          then (if fForceIfFull \<or> length (vSendExpeditedTxs s1) < nExpeditedTxsMax s1
                then (case AddNode (vCalls s1, vSendExpeditedTxs s1) pnode of
                        (tr, v) \<Rightarrow> s1\<lparr>vCalls := tr, vSendExpeditedTxs := v\<rparr>)
                else s1)
          else s1))"

definition DisableExpeditedSends :: "CConnMgr \<Rightarrow> CNode_ptr \<Rightarrow> bool \<Rightarrow> bool \<Rightarrow> CConnMgr" where
  "DisableExpeditedSends s pnode fBlocks fTxs =
     (let s1 =
            (if fBlocks
             then (case RemoveNode (vCalls s, vSendExpeditedBlocks s) pnode of
                     ((tr, v), _) \<Rightarrow> s\<lparr>vCalls := tr, vSendExpeditedBlocks := v\<rparr>)
             else s)
      in (if fTxs
          then (case RemoveNode (vCalls s1, vSendExpeditedTxs s1) pnode of
                  ((tr, v), _) \<Rightarrow> s1\<lparr>vCalls := tr, vSendExpeditedTxs := v\<rparr>)
          else s1))"

definition RemovedNode :: "CConnMgr \<Rightarrow> CNode_ptr \<Rightarrow> CConnMgr" where
  "RemovedNode s pnode =
     (let s1 = (case RemoveNode (vCalls s, vSendExpeditedBlocks s) pnode of
                  ((tr, v), _) \<Rightarrow> s\<lparr>vCalls := tr, vSendExpeditedBlocks := v\<rparr>);
          s2 = (case RemoveNode (vCalls s1, vSendExpeditedTxs s1) pnode of
                  ((tr, v), _) \<Rightarrow> s1\<lparr>vCalls := tr, vSendExpeditedTxs := v\<rparr>)
      in (case RemoveNode (vCalls s2, vExpeditedUpstream s2) pnode of
            ((tr, v), _) \<Rightarrow> s2\<lparr>vCalls := tr, vExpeditedUpstream := v\<rparr>))"

text \<open>The three sizes are written to \<open>uint32_t\<close> references.\<close>

definition ExpeditedNodeCounts :: "CConnMgr \<Rightarrow> 32 word \<times> 32 word \<times> 32 word" where
  "ExpeditedNodeCounts s =
     (of_nat (length (vSendExpeditedBlocks s)),
      of_nat (length (vSendExpeditedTxs s)),
      of_nat (length (vExpeditedUpstream s)))"

text \<open>
  \<open>PushExpeditedRequest\<close> reads the global switch \<open>IsThinBlocksEnabled()\<close> and the
  peer's \<open>ThinBlockCapable()\<close>; both are defined elsewhere and are parameters here.
  The result is the new registry and the returned boolean (\<open>error(...)\<close> logs and
  returns false).
\<close>

definition PushExpeditedRequest :: "bool \<Rightarrow> bool \<Rightarrow> CConnMgr \<Rightarrow> CNode_ptr \<Rightarrow> 64 word \<Rightarrow> CConnMgr \<times> bool" where
  "PushExpeditedRequest IsThinBlocksEnabled ThinBlockCapable s pnode flags =
     (if \<not> IsThinBlocksEnabled then (s, False)
      else if \<not> ThinBlockCapable then (s, False)
      else
        (let s1 =
               (if flags AND EXPEDITED_BLOCKS \<noteq> 0
                then (if flags AND EXPEDITED_STOP \<noteq> 0
                      then (case RemoveNode (vCalls s, vExpeditedUpstream s) pnode of
                              ((tr, v), _) \<Rightarrow> s\<lparr>vCalls := tr, vExpeditedUpstream := v\<rparr>)
                      else (if FindNode (vExpeditedUpstream s) pnode = length (vExpeditedUpstream s)
                            then (case AddNode (vCalls s, vExpeditedUpstream s) pnode of
                                    (tr, v) \<Rightarrow> s\<lparr>vCalls := tr, vExpeditedUpstream := v\<rparr>)
                            else s))
                else s)
         in (s1\<lparr>vCalls := vCalls s1 @ [PushMessage pnode XPEDITEDREQUEST flags]\<rparr>, True)))"

definition IsExpeditedUpstream :: "CConnMgr \<Rightarrow> CNode_ptr \<Rightarrow> bool" where
  "IsExpeditedUpstream s pnode = (FindNode (vExpeditedUpstream s) pnode \<noteq> length (vExpeditedUpstream s))"

text \<open>The registry's invariant: no vector holds a peer twice.\<close>

definition registry_inv :: "CConnMgr \<Rightarrow> bool" where
  "registry_inv s =
     (distinct (vSendExpeditedBlocks s) \<and> distinct (vSendExpeditedTxs s) \<and>
      distinct (vExpeditedUpstream s))"

text \<open>
  Sequences of registry calls. A call of \<open>PushExpeditedRequest\<close> carries the two
  values it reads from outside, since they may differ from call to call.
\<close>

datatype registry_op =
    OpEnable CNode_ptr bool bool bool
  | OpDisable CNode_ptr bool bool
  | OpRemoved CNode_ptr
  | OpPushRequest bool bool CNode_ptr "64 word"

fun apply_op :: "CConnMgr \<Rightarrow> registry_op \<Rightarrow> CConnMgr" where
  "apply_op s (OpEnable pnode fBlocks fTxs fForceIfFull) =
     EnableExpeditedSends s pnode fBlocks fTxs fForceIfFull"
| "apply_op s (OpDisable pnode fBlocks fTxs) = DisableExpeditedSends s pnode fBlocks fTxs"
| "apply_op s (OpRemoved pnode) = RemovedNode s pnode"
| "apply_op s (OpPushRequest te tc pnode flags) = fst (PushExpeditedRequest te tc s pnode flags)"

fun run_ops :: "CConnMgr \<Rightarrow> registry_op list \<Rightarrow> CConnMgr" where
  "run_ops s [] = s"
| "run_ops s (x # ops) = run_ops (apply_op s x) ops"

fun is_forced :: "registry_op \<Rightarrow> bool" where
  "is_forced (OpEnable pnode fBlocks fTxs fForceIfFull) = fForceIfFull"
| "is_forced x = False"

text \<open>
  Counting the calls of a sequence, one category at a time. For the blocks vector an
  enable is a call of \<open>EnableExpeditedSends\<close> with \<open>fBlocks\<close> and a disable is a call
  of \<open>DisableExpeditedSends\<close> with \<open>fBlocks\<close>; likewise for the txs vector with
  \<open>fTxs\<close>. For the upstream vector the enables are the accepted requests that carry
  \<open>EXPEDITED_BLOCKS\<close> without \<open>EXPEDITED_STOP\<close>, and the disables those that carry
  both bits.
\<close>

fun is_enable_blocks :: "registry_op \<Rightarrow> bool" where
  "is_enable_blocks (OpEnable pnode fBlocks fTxs fForceIfFull) = fBlocks"
| "is_enable_blocks x = False"

fun is_disable_blocks :: "registry_op \<Rightarrow> bool" where
  "is_disable_blocks (OpDisable pnode fBlocks fTxs) = fBlocks"
| "is_disable_blocks x = False"

fun is_enable_txs :: "registry_op \<Rightarrow> bool" where
  "is_enable_txs (OpEnable pnode fBlocks fTxs fForceIfFull) = fTxs"
| "is_enable_txs x = False"

fun is_disable_txs :: "registry_op \<Rightarrow> bool" where
  "is_disable_txs (OpDisable pnode fBlocks fTxs) = fTxs"
| "is_disable_txs x = False"

fun is_request :: "registry_op \<Rightarrow> bool" where
  "is_request (OpPushRequest te tc pnode flags) =
     (te \<and> tc \<and> flags AND EXPEDITED_BLOCKS \<noteq> 0 \<and> flags AND EXPEDITED_STOP = 0)"
| "is_request x = False"

fun is_stop :: "registry_op \<Rightarrow> bool" where
  "is_stop (OpPushRequest te tc pnode flags) =
     (te \<and> tc \<and> flags AND EXPEDITED_BLOCKS \<noteq> 0 \<and> flags AND EXPEDITED_STOP \<noteq> 0)"
| "is_stop x = False"

text \<open>
  Enables and disables "on distinct peers", call by call and one category at a time: at
  the moment of the call, an enable of the category names a peer that the vector does not
  hold and is forced or finds the vector below its maximum, and a disable of the category
  names a peer that the vector holds. Calls that do not concern the category are free;
  \<open>RemovedNode\<close> is neither an enable nor a disable and is not part of such a sequence.
\<close>

fun blocks_call_ok :: "CConnMgr \<Rightarrow> registry_op \<Rightarrow> bool" where
  "blocks_call_ok s (OpEnable pnode fBlocks fTxs fForceIfFull) =
     (if fBlocks
      then pnode \<notin> set (vSendExpeditedBlocks s) \<and>
           (fForceIfFull \<or> length (vSendExpeditedBlocks s) < nExpeditedBlocksMax s)
      else True)"
| "blocks_call_ok s (OpDisable pnode fBlocks fTxs) =
     (if fBlocks then pnode \<in> set (vSendExpeditedBlocks s) else True)"
| "blocks_call_ok s (OpRemoved pnode) = False"
| "blocks_call_ok s (OpPushRequest te tc pnode flags) = True"

fun txs_call_ok :: "CConnMgr \<Rightarrow> registry_op \<Rightarrow> bool" where
  "txs_call_ok s (OpEnable pnode fBlocks fTxs fForceIfFull) =
     (if fTxs
      then pnode \<notin> set (vSendExpeditedTxs s) \<and>
           (fForceIfFull \<or> length (vSendExpeditedTxs s) < nExpeditedTxsMax s)
      else True)"
| "txs_call_ok s (OpDisable pnode fBlocks fTxs) =
     (if fTxs then pnode \<in> set (vSendExpeditedTxs s) else True)"
| "txs_call_ok s (OpRemoved pnode) = False"
| "txs_call_ok s (OpPushRequest te tc pnode flags) = True"

fun upstream_call_ok :: "CConnMgr \<Rightarrow> registry_op \<Rightarrow> bool" where
  "upstream_call_ok s (OpPushRequest te tc pnode flags) =
     (if te \<and> tc \<and> flags AND EXPEDITED_BLOCKS \<noteq> 0
      then (if flags AND EXPEDITED_STOP \<noteq> 0 then pnode \<in> set (vExpeditedUpstream s)
            else pnode \<notin> set (vExpeditedUpstream s))
      else True)"
| "upstream_call_ok s (OpRemoved pnode) = False"
| "upstream_call_ok s x = True"

fun blocks_seq :: "CConnMgr \<Rightarrow> registry_op list \<Rightarrow> bool" where
  "blocks_seq s [] = True"
| "blocks_seq s (x # ops) = (blocks_call_ok s x \<and> blocks_seq (apply_op s x) ops)"

fun txs_seq :: "CConnMgr \<Rightarrow> registry_op list \<Rightarrow> bool" where
  "txs_seq s [] = True"
| "txs_seq s (x # ops) = (txs_call_ok s x \<and> txs_seq (apply_op s x) ops)"

fun upstream_seq :: "CConnMgr \<Rightarrow> registry_op list \<Rightarrow> bool" where
  "upstream_seq s [] = True"
| "upstream_seq s (x # ops) = (upstream_call_ok s x \<and> upstream_seq (apply_op s x) ops)"

text \<open>Enabling a list of peers one after the other, for both categories.\<close>

fun enable_all :: "bool \<Rightarrow> CNode_ptr list \<Rightarrow> registry_op list" where
  "enable_all force [] = []"
| "enable_all force (pnode # ps) = OpEnable pnode True True force # enable_all force ps"

section \<open>The script check and the pool of check queues (parallel.h)\<close>

text \<open>
  \<open>CScript\<close> is a vector of bytes. Pointers are addresses, with 0 for the null
  pointer.
\<close>

type_synonym CScript = "8 word list"

text \<open>
  Modelled from the spec: \<open>ScriptError\<close> is an enumeration declared in a header that is
  not part of the sources at hand. The spec calls it a result code whose default is
  "unknown". The model has the value the script check names, and stands for every other
  one by a number.
\<close>

datatype ScriptError = SCRIPT_ERR_UNKNOWN_ERROR | SCRIPT_ERR_OTHER nat

text \<open>
  \<open>CTxOut\<close>, \<open>COutPoint\<close>, \<open>CTxIn\<close>, \<open>CTransaction\<close> and \<open>CCoins\<close> are declared
  in headers that are not at hand either. The records have the members the constructor
  of the script check reads (\<open>vout\<close>, \<open>vin\<close>, \<open>prevout\<close>, \<open>n\<close>,
  \<open>scriptPubKey\<close>), some under a longer name to keep them apart.
\<close>

record CTxOut =
  nValue :: int
  txout_scriptPubKey :: CScript

record COutPoint =
  outpoint_hash :: "256 word"
  outpoint_n :: "32 word"

record CTxIn =
  prevout :: COutPoint
  scriptSig :: CScript
  nSequence :: "32 word"

record CTransaction =
  vin :: "CTxIn list"
  tx_vout :: "CTxOut list"

record CCoins =
  vout :: "CTxOut list"

record CScriptCheck =
  scriptPubKey :: CScript
  ptxTo :: nat
  nIn :: "32 word"
  nFlags :: "32 word"
  cacheStore :: bool
  error :: ScriptError

definition CScriptCheck_default :: CScriptCheck where
  "CScriptCheck_default =
     \<lparr> scriptPubKey = [], ptxTo = 0, nIn = 0, nFlags = 0, cacheStore = False,
       error = SCRIPT_ERR_UNKNOWN_ERROR \<rparr>"

text \<open>
  The constructor from a coin and a spending transaction. \<open>operator[]\<close> on a vector
  does not check its index: an index outside the vector is undefined behaviour, which the
  model reports as a fault instead of a value. \<open>ptxToIn\<close> is the address of \<open>txToIn\<close>.
\<close>

datatype fault = VinOutOfRange | VoutOutOfRange

definition CScriptCheck_ctor ::
  "CCoins \<Rightarrow> nat \<Rightarrow> CTransaction \<Rightarrow> 32 word \<Rightarrow> 32 word \<Rightarrow> bool \<Rightarrow> fault + CScriptCheck" where
  "CScriptCheck_ctor txFromIn ptxToIn txToIn nInIn nFlagsIn cacheIn =
     (if \<not> unat nInIn < length (vin txToIn) then Inl VinOutOfRange
      else
        (let k = outpoint_n (prevout (vin txToIn ! unat nInIn)) in
           if \<not> unat k < length (vout txFromIn) then Inl VoutOutOfRange
           else Inr \<lparr> scriptPubKey = txout_scriptPubKey (vout txFromIn ! unat k),
                      ptxTo = ptxToIn, nIn = nInIn, nFlags = nFlagsIn, cacheStore = cacheIn,
                      error = SCRIPT_ERR_UNKNOWN_ERROR \<rparr>))"

text \<open>
  \<open>swap\<close> exchanges the fields one after the other; the model returns the two objects
  after the call, \<open>this\<close> first.
\<close>

definition CScriptCheck_swap :: "CScriptCheck \<Rightarrow> CScriptCheck \<Rightarrow> CScriptCheck \<times> CScriptCheck" where
  "CScriptCheck_swap this check =
     (let (a1, b1) = (this\<lparr>scriptPubKey := scriptPubKey check\<rparr>, check\<lparr>scriptPubKey := scriptPubKey this\<rparr>);
          (a2, b2) = (a1\<lparr>ptxTo := ptxTo b1\<rparr>, b1\<lparr>ptxTo := ptxTo a1\<rparr>);
          (a3, b3) = (a2\<lparr>nIn := nIn b2\<rparr>, b2\<lparr>nIn := nIn a2\<rparr>);
          (a4, b4) = (a3\<lparr>nFlags := nFlags b3\<rparr>, b3\<lparr>nFlags := nFlags a3\<rparr>);
          (a5, b5) = (a4\<lparr>cacheStore := cacheStore b4\<rparr>, b4\<lparr>cacheStore := cacheStore a4\<rparr>)
      in (a5\<lparr>error := error b5\<rparr>, b5\<lparr>error := error a5\<rparr>))"

text \<open>The pool holds pointers to the check queues; \<open>Size\<close> returns a \<open>uint8_t\<close>.\<close>

record CAllScriptCheckQueues =
  vScriptCheckQueues :: "nat list"

definition CAllScriptCheckQueues_ctor :: CAllScriptCheckQueues where
  "CAllScriptCheckQueues_ctor = \<lparr> vScriptCheckQueues = [] \<rparr>"

definition Add :: "CAllScriptCheckQueues \<Rightarrow> nat \<Rightarrow> CAllScriptCheckQueues" where
  "Add s pqueueIn = s\<lparr>vScriptCheckQueues := vScriptCheckQueues s @ [pqueueIn]\<rparr>"

definition Size :: "CAllScriptCheckQueues \<Rightarrow> 8 word" where
  "Size s = of_nat (length (vScriptCheckQueues s))"

fun add_calls :: "CAllScriptCheckQueues \<Rightarrow> nat list \<Rightarrow> CAllScriptCheckQueues" where
  "add_calls s [] = s"
| "add_calls s (pqueueIn # qs) = add_calls (Add s pqueueIn) qs"

section \<open>The registry of validation sessions (parallel.h)\<close>







section \<open>Facts about the vector helpers\<close>

lemma FindNode_le: "FindNode vNodes pnode \<le> length vNodes"
  by (induction vNodes) auto

lemma FindNode_end_iff: "FindNode vNodes pnode = length vNodes \<longleftrightarrow> pnode \<notin> set vNodes"
proof (induction vNodes)
  case Nil
  show ?case by simp
next
  case (Cons x vNodes)
  have "FindNode vNodes pnode \<le> length vNodes" by (rule FindNode_le)
  with Cons show ?case by auto
qed

lemma vector_erase_FindNode:
  "pnode \<in> set vNodes \<Longrightarrow> vector_erase vNodes (FindNode vNodes pnode) = remove1 pnode vNodes"
  by (induction vNodes) (auto simp: vector_erase_def)

lemma RemoveNode_eq:
  "RemoveNode (tr, vNodes) pnode =
     (if pnode \<in> set vNodes then ((tr @ [Release pnode], remove1 pnode vNodes), True)
      else ((tr, vNodes), False))"
  by (simp add: RemoveNode_def Let_def FindNode_end_iff vector_erase_FindNode)

lemma AddNode_eq: "AddNode (tr, vNodes) pnode = (tr @ [AddRef pnode], vNodes @ [pnode])"
  by (simp add: AddNode_def)

subsection \<open>What each operation does to each vector\<close>

lemma Enable_blocks:
  "vSendExpeditedBlocks (EnableExpeditedSends s pnode fBlocks fTxs fForceIfFull) =
     (if fBlocks \<and> pnode \<notin> set (vSendExpeditedBlocks s) \<and>
         (fForceIfFull \<or> length (vSendExpeditedBlocks s) < nExpeditedBlocksMax s)
      then vSendExpeditedBlocks s @ [pnode] else vSendExpeditedBlocks s)"
  by (simp add: EnableExpeditedSends_def Let_def FindNode_end_iff AddNode_eq)

lemma Enable_txs:
  "vSendExpeditedTxs (EnableExpeditedSends s pnode fBlocks fTxs fForceIfFull) =
     (if fTxs \<and> pnode \<notin> set (vSendExpeditedTxs s) \<and>
         (fForceIfFull \<or> length (vSendExpeditedTxs s) < nExpeditedTxsMax s)
      then vSendExpeditedTxs s @ [pnode] else vSendExpeditedTxs s)"
  by (simp add: EnableExpeditedSends_def Let_def FindNode_end_iff AddNode_eq)

lemma Enable_other:
  "vExpeditedUpstream (EnableExpeditedSends s pnode fBlocks fTxs fForceIfFull) = vExpeditedUpstream s"
  "nExpeditedBlocksMax (EnableExpeditedSends s pnode fBlocks fTxs fForceIfFull) = nExpeditedBlocksMax s"
  "nExpeditedTxsMax (EnableExpeditedSends s pnode fBlocks fTxs fForceIfFull) = nExpeditedTxsMax s"
  by (simp_all add: EnableExpeditedSends_def Let_def AddNode_eq)

lemma Disable_blocks:
  "vSendExpeditedBlocks (DisableExpeditedSends s pnode fBlocks fTxs) =
     (if fBlocks then remove1 pnode (vSendExpeditedBlocks s) else vSendExpeditedBlocks s)"
  by (simp add: DisableExpeditedSends_def Let_def RemoveNode_eq remove1_idem)

lemma Disable_txs:
  "vSendExpeditedTxs (DisableExpeditedSends s pnode fBlocks fTxs) =
     (if fTxs then remove1 pnode (vSendExpeditedTxs s) else vSendExpeditedTxs s)"
  by (simp add: DisableExpeditedSends_def Let_def RemoveNode_eq remove1_idem)

lemma Disable_other:
  "vExpeditedUpstream (DisableExpeditedSends s pnode fBlocks fTxs) = vExpeditedUpstream s"
  "nExpeditedBlocksMax (DisableExpeditedSends s pnode fBlocks fTxs) = nExpeditedBlocksMax s"
  "nExpeditedTxsMax (DisableExpeditedSends s pnode fBlocks fTxs) = nExpeditedTxsMax s"
  by (simp_all add: DisableExpeditedSends_def Let_def RemoveNode_eq)

lemma RemovedNode_vectors:
  "vSendExpeditedBlocks (RemovedNode s pnode) = remove1 pnode (vSendExpeditedBlocks s)"
  "vSendExpeditedTxs (RemovedNode s pnode) = remove1 pnode (vSendExpeditedTxs s)"
  "vExpeditedUpstream (RemovedNode s pnode) = remove1 pnode (vExpeditedUpstream s)"
  by (simp_all add: RemovedNode_def Let_def RemoveNode_eq remove1_idem)

lemma RemovedNode_other:
  "nExpeditedBlocksMax (RemovedNode s pnode) = nExpeditedBlocksMax s"
  "nExpeditedTxsMax (RemovedNode s pnode) = nExpeditedTxsMax s"
  by (simp_all add: RemovedNode_def Let_def RemoveNode_eq)

lemma RemovedNode_absent:
  assumes "pnode \<notin> set (vSendExpeditedBlocks s)"
    and "pnode \<notin> set (vSendExpeditedTxs s)"
    and "pnode \<notin> set (vExpeditedUpstream s)"
  shows "RemovedNode s pnode = s"
  using assms by (simp add: RemovedNode_def Let_def RemoveNode_eq)

lemma Push_upstream:
  "vExpeditedUpstream (fst (PushExpeditedRequest te tc s pnode flags)) =
     (if te \<and> tc \<and> flags AND EXPEDITED_BLOCKS \<noteq> 0
      then (if flags AND EXPEDITED_STOP \<noteq> 0 then remove1 pnode (vExpeditedUpstream s)
            else if pnode \<in> set (vExpeditedUpstream s) then vExpeditedUpstream s
            else vExpeditedUpstream s @ [pnode])
      else vExpeditedUpstream s)"
  by (simp add: PushExpeditedRequest_def Let_def RemoveNode_eq AddNode_eq FindNode_end_iff
      remove1_idem)

lemma Push_other:
  "vSendExpeditedBlocks (fst (PushExpeditedRequest te tc s pnode flags)) = vSendExpeditedBlocks s"
  "vSendExpeditedTxs (fst (PushExpeditedRequest te tc s pnode flags)) = vSendExpeditedTxs s"
  "nExpeditedBlocksMax (fst (PushExpeditedRequest te tc s pnode flags)) = nExpeditedBlocksMax s"
  "nExpeditedTxsMax (fst (PushExpeditedRequest te tc s pnode flags)) = nExpeditedTxsMax s"
  by (simp_all add: PushExpeditedRequest_def Let_def RemoveNode_eq AddNode_eq)

lemma Push_calls:
  "vCalls (fst (PushExpeditedRequest te tc s pnode flags)) =
     (if te \<and> tc
      then vCalls s @
        (if flags AND EXPEDITED_BLOCKS \<noteq> 0
         then (if flags AND EXPEDITED_STOP \<noteq> 0
               then (if pnode \<in> set (vExpeditedUpstream s) then [Release pnode] else [])
               else (if pnode \<in> set (vExpeditedUpstream s) then [] else [AddRef pnode]))
         else [])
        @ [PushMessage pnode XPEDITEDREQUEST flags]
      else vCalls s)"
  by (simp add: PushExpeditedRequest_def Let_def RemoveNode_eq AddNode_eq FindNode_end_iff)

lemma registry_inv_apply_op: "registry_inv s \<Longrightarrow> registry_inv (apply_op s x)"
proof (cases x)
  case (OpEnable pnode fBlocks fTxs fForceIfFull)
  assume "registry_inv s"
  then show ?thesis
    by (simp add: OpEnable registry_inv_def Enable_blocks Enable_txs Enable_other)
next
  case (OpDisable pnode fBlocks fTxs)
  assume "registry_inv s"
  then show ?thesis
    by (simp add: OpDisable registry_inv_def Disable_blocks Disable_txs Disable_other)
next
  case (OpRemoved pnode)
  assume "registry_inv s"
  then show ?thesis
    by (simp add: OpRemoved registry_inv_def RemovedNode_vectors)
next
  case (OpPushRequest te tc pnode flags)
  assume "registry_inv s"
  then show ?thesis
    by (simp add: OpPushRequest registry_inv_def Push_upstream Push_other)
qed

lemma registry_inv_run_ops: "registry_inv s \<Longrightarrow> registry_inv (run_ops s ops)"
  by (induction ops arbitrary: s) (simp_all add: registry_inv_apply_op)

lemma registry_inv_ctor: "registry_inv CConnMgr_ctor"
  by (simp add: registry_inv_def CConnMgr_ctor_def)

subsection \<open>Sequences of operations\<close>

lemma run_ops_max:
  "nExpeditedBlocksMax (run_ops s ops) = nExpeditedBlocksMax s \<and>
   nExpeditedTxsMax (run_ops s ops) = nExpeditedTxsMax s"
proof (induction ops arbitrary: s)
  case Nil
  show ?case by simp
next
  case (Cons x ops)
  have "nExpeditedBlocksMax (apply_op s x) = nExpeditedBlocksMax s \<and>
        nExpeditedTxsMax (apply_op s x) = nExpeditedTxsMax s"
    by (cases x) (simp_all add: Enable_other Disable_other RemovedNode_other Push_other)
  with Cons [of "apply_op s x"] show ?case by simp
qed

lemma length_remove1_present:
  "p \<in> set xs \<Longrightarrow> Suc (length (remove1 p xs)) = length xs"
proof -
  assume "p \<in> set xs"
  then have "length xs \<noteq> 0" by auto
  with \<open>p \<in> set xs\<close> show ?thesis by (simp add: length_remove1)
qed

lemma blocks_call_count:
  assumes "blocks_call_ok s x"
  shows "length (vSendExpeditedBlocks (apply_op s x)) + (if is_disable_blocks x then 1 else 0)
           = length (vSendExpeditedBlocks s) + (if is_enable_blocks x then 1 else 0)"
proof (cases x)
  case (OpEnable pnode fBlocks fTxs fForceIfFull)
  with assms show ?thesis by (simp add: Enable_blocks split: if_splits)
next
  case (OpDisable pnode fBlocks fTxs)
  with assms length_remove1_present [of pnode "vSendExpeditedBlocks s"] show ?thesis
    by (simp add: Disable_blocks split: if_splits)
next
  case (OpRemoved pnode)
  with assms show ?thesis by simp
next
  case (OpPushRequest te tc pnode flags)
  then show ?thesis by (simp add: Push_other)
qed

lemma txs_call_count:
  assumes "txs_call_ok s x"
  shows "length (vSendExpeditedTxs (apply_op s x)) + (if is_disable_txs x then 1 else 0)
           = length (vSendExpeditedTxs s) + (if is_enable_txs x then 1 else 0)"
proof (cases x)
  case (OpEnable pnode fBlocks fTxs fForceIfFull)
  with assms show ?thesis by (simp add: Enable_txs split: if_splits)
next
  case (OpDisable pnode fBlocks fTxs)
  with assms length_remove1_present [of pnode "vSendExpeditedTxs s"] show ?thesis
    by (simp add: Disable_txs split: if_splits)
next
  case (OpRemoved pnode)
  with assms show ?thesis by simp
next
  case (OpPushRequest te tc pnode flags)
  then show ?thesis by (simp add: Push_other)
qed

lemma upstream_call_count:
  assumes "upstream_call_ok s x"
  shows "length (vExpeditedUpstream (apply_op s x)) + (if is_stop x then 1 else 0)
           = length (vExpeditedUpstream s) + (if is_request x then 1 else 0)"
proof (cases x)
  case (OpEnable pnode fBlocks fTxs fForceIfFull)
  then show ?thesis by (simp add: Enable_other)
next
  case (OpDisable pnode fBlocks fTxs)
  then show ?thesis by (simp add: Disable_other)
next
  case (OpRemoved pnode)
  with assms show ?thesis by simp
next
  case (OpPushRequest te tc pnode flags)
  with assms length_remove1_present [of pnode "vExpeditedUpstream s"] show ?thesis
    by (auto simp: Push_upstream split: if_splits)
qed

lemma blocks_seq_count:
  "blocks_seq s ops \<Longrightarrow>
     length (vSendExpeditedBlocks (run_ops s ops)) + length (filter is_disable_blocks ops)
       = length (vSendExpeditedBlocks s) + length (filter is_enable_blocks ops)"
proof (induction ops arbitrary: s)
  case Nil
  show ?case by simp
next
  case (Cons x ops)
  from Cons.prems have ok: "blocks_call_ok s x" and rest: "blocks_seq (apply_op s x) ops"
    by simp_all
  from Cons.IH [OF rest] blocks_call_count [OF ok] show ?case
    by (simp split: if_splits)
qed

lemma txs_seq_count:
  "txs_seq s ops \<Longrightarrow>
     length (vSendExpeditedTxs (run_ops s ops)) + length (filter is_disable_txs ops)
       = length (vSendExpeditedTxs s) + length (filter is_enable_txs ops)"
proof (induction ops arbitrary: s)
  case Nil
  show ?case by simp
next
  case (Cons x ops)
  from Cons.prems have ok: "txs_call_ok s x" and rest: "txs_seq (apply_op s x) ops"
    by simp_all
  from Cons.IH [OF rest] txs_call_count [OF ok] show ?case
    by (simp split: if_splits)
qed

lemma upstream_seq_count:
  "upstream_seq s ops \<Longrightarrow>
     length (vExpeditedUpstream (run_ops s ops)) + length (filter is_stop ops)
       = length (vExpeditedUpstream s) + length (filter is_request ops)"
proof (induction ops arbitrary: s)
  case Nil
  show ?case by simp
next
  case (Cons x ops)
  from Cons.prems have ok: "upstream_call_ok s x" and rest: "upstream_seq (apply_op s x) ops"
    by simp_all
  from Cons.IH [OF rest] upstream_call_count [OF ok] show ?case
    by (simp split: if_splits)
qed

lemma unforced_within_max:
  assumes "\<forall>x \<in> set ops. \<not> is_forced x"
    and "length (vSendExpeditedBlocks s) \<le> nExpeditedBlocksMax s"
    and "length (vSendExpeditedTxs s) \<le> nExpeditedTxsMax s"
  shows "length (vSendExpeditedBlocks (run_ops s ops)) \<le> nExpeditedBlocksMax s \<and>
         length (vSendExpeditedTxs (run_ops s ops)) \<le> nExpeditedTxsMax s"
  using assms
proof (induction ops arbitrary: s)
  case Nil
  then show ?case by simp
next
  case (Cons x ops)
  have mx: "nExpeditedBlocksMax (apply_op s x) = nExpeditedBlocksMax s"
    "nExpeditedTxsMax (apply_op s x) = nExpeditedTxsMax s"
    using run_ops_max [of s "[x]"] by simp_all
  have le_remove1: "length (remove1 p xs) \<le> length xs" for p and xs :: "nat list"
    by (simp add: length_remove1)
  have b: "length (vSendExpeditedBlocks (apply_op s x)) \<le> nExpeditedBlocksMax s"
    using Cons.prems(1,2) le_remove1 [of _ "vSendExpeditedBlocks s"]
    by (cases x) (auto simp: Enable_blocks Disable_blocks RemovedNode_vectors Push_other
        intro: order_trans)
  have t: "length (vSendExpeditedTxs (apply_op s x)) \<le> nExpeditedTxsMax s"
    using Cons.prems(1,3) le_remove1 [of _ "vSendExpeditedTxs s"]
    by (cases x) (auto simp: Enable_txs Disable_txs RemovedNode_vectors Push_other
        intro: order_trans)
  from Cons.prems(1) have "\<forall>x \<in> set ops. \<not> is_forced x" by simp
  from Cons.IH [OF this, of "apply_op s x"] b t mx show ?case by simp
qed

section \<open>The claims about the peer fanout registry\<close>

text \<open>
  C3. When the expedited-blocks (or expedited-txs) vector already holds its configured
  maximum number of peers, or more, \<open>EnableExpeditedSends\<close> with \<open>fForceIfFull\<close>
  false leaves that vector as it is, so a vector within its maximum stays within it.
  With \<open>fForceIfFull\<close> true the requested peer is in the vector afterwards whatever
  the size was, appended at the end when it was absent. The constructor sets both maxima
  to 32.
\<close>

theorem EnableExpeditedSends_capacity:
  "(nExpeditedBlocksMax s \<le> length (vSendExpeditedBlocks s) \<longrightarrow>
      vSendExpeditedBlocks (EnableExpeditedSends s pnode fBlocks fTxs False) = vSendExpeditedBlocks s)
   \<and> (nExpeditedTxsMax s \<le> length (vSendExpeditedTxs s) \<longrightarrow>
      vSendExpeditedTxs (EnableExpeditedSends s pnode fBlocks fTxs False) = vSendExpeditedTxs s)
   \<and> (length (vSendExpeditedBlocks s) \<le> nExpeditedBlocksMax s \<longrightarrow>
      length (vSendExpeditedBlocks (EnableExpeditedSends s pnode fBlocks fTxs False))
        \<le> nExpeditedBlocksMax s)
   \<and> (length (vSendExpeditedTxs s) \<le> nExpeditedTxsMax s \<longrightarrow>
      length (vSendExpeditedTxs (EnableExpeditedSends s pnode fBlocks fTxs False))
        \<le> nExpeditedTxsMax s)
   \<and> pnode \<in> set (vSendExpeditedBlocks (EnableExpeditedSends s pnode True fTxs True))
   \<and> pnode \<in> set (vSendExpeditedTxs (EnableExpeditedSends s pnode fBlocks True True))
   \<and> (pnode \<notin> set (vSendExpeditedBlocks s) \<longrightarrow>
      vSendExpeditedBlocks (EnableExpeditedSends s pnode True fTxs True)
        = vSendExpeditedBlocks s @ [pnode])
   \<and> (pnode \<notin> set (vSendExpeditedTxs s) \<longrightarrow>
      vSendExpeditedTxs (EnableExpeditedSends s pnode fBlocks True True)
        = vSendExpeditedTxs s @ [pnode])
   \<and> nExpeditedBlocksMax CConnMgr_ctor = 32 \<and> nExpeditedTxsMax CConnMgr_ctor = 32"
  by (simp add: Enable_blocks Enable_txs CConnMgr_ctor_def)

text \<open>
  An instance: a registry whose maximum for blocks is 2 and which sends blocks to peers
  1 and 2. Peer 3 is refused without \<open>fForceIfFull\<close> and appended with it.
\<close>

theorem EnableExpeditedSends_capacity_witness:
  "nExpeditedBlocksMax (CConnMgr_ctor\<lparr>vSendExpeditedBlocks := [1, 2], nExpeditedBlocksMax := 2\<rparr>)
     \<le> length (vSendExpeditedBlocks (CConnMgr_ctor\<lparr>vSendExpeditedBlocks := [1, 2], nExpeditedBlocksMax := 2\<rparr>))
   \<and> vSendExpeditedBlocks (EnableExpeditedSends
        (CConnMgr_ctor\<lparr>vSendExpeditedBlocks := [1, 2], nExpeditedBlocksMax := 2\<rparr>) 3 True True False)
      = [1, 2]
   \<and> vSendExpeditedBlocks (EnableExpeditedSends
        (CConnMgr_ctor\<lparr>vSendExpeditedBlocks := [1, 2], nExpeditedBlocksMax := 2\<rparr>) 3 True True True)
      = [1, 2, 3]"
  using EnableExpeditedSends_capacity
    [of "CConnMgr_ctor\<lparr>vSendExpeditedBlocks := [1, 2], nExpeditedBlocksMax := 2\<rparr>" 3 True True]
  by (simp add: CConnMgr_ctor_def)

text \<open>
  C4. When thin blocks are switched off, or the peer has not advertised them,
  \<open>PushExpeditedRequest\<close> returns false and the registry is what it was: the three
  vectors are unchanged and no call reaches the peer, so no message is sent.
\<close>

theorem PushExpeditedRequest_refused:
  assumes "\<not> IsThinBlocksEnabled \<or> \<not> ThinBlockCapable"
  shows "PushExpeditedRequest IsThinBlocksEnabled ThinBlockCapable s pnode flags = (s, False)"
  using assms by (auto simp: PushExpeditedRequest_def)

theorem PushExpeditedRequest_refused_witness:
  "PushExpeditedRequest True False (CConnMgr_ctor\<lparr>vExpeditedUpstream := [5]\<rparr>) 5
     (EXPEDITED_BLOCKS OR EXPEDITED_STOP)
   = (CConnMgr_ctor\<lparr>vExpeditedUpstream := [5]\<rparr>, False)
   \<and> PushExpeditedRequest False True CConnMgr_ctor 5 EXPEDITED_BLOCKS = (CConnMgr_ctor, False)"
  using PushExpeditedRequest_refused [of True False "CConnMgr_ctor\<lparr>vExpeditedUpstream := [5]\<rparr>" 5
      "EXPEDITED_BLOCKS OR EXPEDITED_STOP"]
    PushExpeditedRequest_refused [of False True CConnMgr_ctor 5 EXPEDITED_BLOCKS]
  by simp

text \<open>
  C1, as the code has it. For a peer that passes both checks, \<open>PushExpeditedRequest\<close>
  touches the upstream vector only when \<open>flags\<close> has the \<open>EXPEDITED_BLOCKS\<close> bit:
  then the \<open>EXPEDITED_STOP\<close> bit removes the peer (its first occurrence, which is its
  only one when the vector has no duplicates), and without that bit the peer is appended
  unless it is present, whatever the size of the vector. Without the
  \<open>EXPEDITED_BLOCKS\<close> bit the upstream vector is unchanged. The other two vectors are
  never touched. In every case the request message is the last call made to the peer,
  after the reference count call if there was one, and the result is true.
\<close>

theorem PushExpeditedRequest_accepted:
  assumes "IsThinBlocksEnabled" and "ThinBlockCapable"
  shows "snd (PushExpeditedRequest IsThinBlocksEnabled ThinBlockCapable s pnode flags) = True
    \<and> vExpeditedUpstream (fst (PushExpeditedRequest IsThinBlocksEnabled ThinBlockCapable s pnode flags)) =
        (if flags AND EXPEDITED_BLOCKS = 0 then vExpeditedUpstream s
         else if flags AND EXPEDITED_STOP \<noteq> 0 then remove1 pnode (vExpeditedUpstream s)
         else if pnode \<in> set (vExpeditedUpstream s) then vExpeditedUpstream s
         else vExpeditedUpstream s @ [pnode])
    \<and> (flags AND EXPEDITED_BLOCKS \<noteq> 0 \<and> flags AND EXPEDITED_STOP \<noteq> 0 \<and>
        distinct (vExpeditedUpstream s) \<longrightarrow>
        pnode \<notin> set (vExpeditedUpstream
          (fst (PushExpeditedRequest IsThinBlocksEnabled ThinBlockCapable s pnode flags))))
    \<and> (flags AND EXPEDITED_BLOCKS \<noteq> 0 \<and> flags AND EXPEDITED_STOP = 0 \<longrightarrow>
        pnode \<in> set (vExpeditedUpstream
          (fst (PushExpeditedRequest IsThinBlocksEnabled ThinBlockCapable s pnode flags))))
    \<and> vSendExpeditedBlocks (fst (PushExpeditedRequest IsThinBlocksEnabled ThinBlockCapable s pnode flags))
        = vSendExpeditedBlocks s
    \<and> vSendExpeditedTxs (fst (PushExpeditedRequest IsThinBlocksEnabled ThinBlockCapable s pnode flags))
        = vSendExpeditedTxs s
    \<and> vCalls (fst (PushExpeditedRequest IsThinBlocksEnabled ThinBlockCapable s pnode flags)) =
        vCalls s @
        (if flags AND EXPEDITED_BLOCKS \<noteq> 0
         then (if flags AND EXPEDITED_STOP \<noteq> 0
               then (if pnode \<in> set (vExpeditedUpstream s) then [Release pnode] else [])
               else (if pnode \<in> set (vExpeditedUpstream s) then [] else [AddRef pnode]))
         else [])
        @ [PushMessage pnode XPEDITEDREQUEST flags]"
proof -
  have r: "snd (PushExpeditedRequest IsThinBlocksEnabled ThinBlockCapable s pnode flags) = True"
    using assms by (simp add: PushExpeditedRequest_def Let_def)
  have u: "vExpeditedUpstream (fst (PushExpeditedRequest IsThinBlocksEnabled ThinBlockCapable s pnode flags)) =
        (if flags AND EXPEDITED_BLOCKS = 0 then vExpeditedUpstream s
         else if flags AND EXPEDITED_STOP \<noteq> 0 then remove1 pnode (vExpeditedUpstream s)
         else if pnode \<in> set (vExpeditedUpstream s) then vExpeditedUpstream s
         else vExpeditedUpstream s @ [pnode])"
    using assms by (simp add: Push_upstream)
  have c: "vCalls (fst (PushExpeditedRequest IsThinBlocksEnabled ThinBlockCapable s pnode flags)) =
        vCalls s @
        (if flags AND EXPEDITED_BLOCKS \<noteq> 0
         then (if flags AND EXPEDITED_STOP \<noteq> 0
               then (if pnode \<in> set (vExpeditedUpstream s) then [Release pnode] else [])
               else (if pnode \<in> set (vExpeditedUpstream s) then [] else [AddRef pnode]))
         else [])
        @ [PushMessage pnode XPEDITEDREQUEST flags]"
    using assms by (simp add: Push_calls)
  have gone: "flags AND EXPEDITED_BLOCKS \<noteq> 0 \<and> flags AND EXPEDITED_STOP \<noteq> 0 \<and>
        distinct (vExpeditedUpstream s) \<longrightarrow>
        pnode \<notin> set (vExpeditedUpstream
          (fst (PushExpeditedRequest IsThinBlocksEnabled ThinBlockCapable s pnode flags)))"
    by (simp add: u)
  have there: "flags AND EXPEDITED_BLOCKS \<noteq> 0 \<and> flags AND EXPEDITED_STOP = 0 \<longrightarrow>
        pnode \<in> set (vExpeditedUpstream
          (fst (PushExpeditedRequest IsThinBlocksEnabled ThinBlockCapable s pnode flags)))"
    by (simp add: u)
  from r u gone there c show ?thesis
    by (simp only: Push_other simp_thms)
qed

text \<open>
  An instance: peer 7 is asked for expedited blocks twice, then asked to stop. The second
  request changes nothing in the vector and is sent all the same.
\<close>

theorem PushExpeditedRequest_accepted_witness:
  "vExpeditedUpstream (fst (PushExpeditedRequest True True CConnMgr_ctor 7 EXPEDITED_BLOCKS)) = [7]
   \<and> vCalls (fst (PushExpeditedRequest True True CConnMgr_ctor 7 EXPEDITED_BLOCKS))
      = [AddRef 7, PushMessage 7 XPEDITEDREQUEST EXPEDITED_BLOCKS]
   \<and> vExpeditedUpstream (fst (PushExpeditedRequest True True
        (CConnMgr_ctor\<lparr>vExpeditedUpstream := [7]\<rparr>) 7 EXPEDITED_BLOCKS)) = [7]
   \<and> vCalls (fst (PushExpeditedRequest True True
        (CConnMgr_ctor\<lparr>vExpeditedUpstream := [7]\<rparr>) 7 EXPEDITED_BLOCKS))
      = [PushMessage 7 XPEDITEDREQUEST EXPEDITED_BLOCKS]
   \<and> vExpeditedUpstream (fst (PushExpeditedRequest True True
        (CConnMgr_ctor\<lparr>vExpeditedUpstream := [7]\<rparr>) 7 (EXPEDITED_BLOCKS OR EXPEDITED_STOP))) = []
   \<and> snd (PushExpeditedRequest True True
        (CConnMgr_ctor\<lparr>vExpeditedUpstream := [7]\<rparr>) 7 (EXPEDITED_BLOCKS OR EXPEDITED_STOP))"
  using PushExpeditedRequest_accepted [of True True CConnMgr_ctor 7 EXPEDITED_BLOCKS]
    PushExpeditedRequest_accepted [of True True "CConnMgr_ctor\<lparr>vExpeditedUpstream := [7]\<rparr>" 7 EXPEDITED_BLOCKS]
    PushExpeditedRequest_accepted [of True True "CConnMgr_ctor\<lparr>vExpeditedUpstream := [7]\<rparr>" 7
      "EXPEDITED_BLOCKS OR EXPEDITED_STOP"]
  by (simp add: CConnMgr_ctor_def EXPEDITED_BLOCKS_def EXPEDITED_STOP_def)

text \<open>
  The claim as written fails where \<open>flags\<close> lacks the \<open>EXPEDITED_BLOCKS\<close> bit: with
  \<open>EXPEDITED_STOP\<close> alone an upstream peer stays in the vector, and with
  \<open>EXPEDITED_TXNS\<close> alone an absent peer is not added; both calls return true.
\<close>

theorem PushExpeditedRequest_stop_only_counterexample:
  "EXPEDITED_STOP AND EXPEDITED_STOP \<noteq> 0
   \<and> vExpeditedUpstream (fst (PushExpeditedRequest True True CConnMgr_ctor 7 EXPEDITED_BLOCKS)) = [7]
   \<and> vExpeditedUpstream (fst (PushExpeditedRequest True True
        (fst (PushExpeditedRequest True True CConnMgr_ctor 7 EXPEDITED_BLOCKS)) 7 EXPEDITED_STOP)) = [7]
   \<and> snd (PushExpeditedRequest True True
        (fst (PushExpeditedRequest True True CConnMgr_ctor 7 EXPEDITED_BLOCKS)) 7 EXPEDITED_STOP)
   \<and> EXPEDITED_TXNS AND EXPEDITED_STOP = 0
   \<and> vExpeditedUpstream (fst (PushExpeditedRequest True True CConnMgr_ctor 7 EXPEDITED_TXNS)) = []
   \<and> snd (PushExpeditedRequest True True CConnMgr_ctor 7 EXPEDITED_TXNS)"
  by (simp add: PushExpeditedRequest_def Let_def RemoveNode_def AddNode_def vector_erase_def
      CConnMgr_ctor_def EXPEDITED_BLOCKS_def EXPEDITED_STOP_def EXPEDITED_TXNS_def)

text \<open>
  C5. \<open>RemovedNode\<close> leaves a vector that does not hold the peer as it is, and leaves
  the whole registry as it is when no vector holds the peer. On a registry without
  duplicates, and so on every registry reached from the constructor, a second call
  right after the first changes nothing.
\<close>

theorem RemovedNode_idempotent:
  "(pnode \<notin> set (vSendExpeditedBlocks s) \<longrightarrow>
      vSendExpeditedBlocks (RemovedNode s pnode) = vSendExpeditedBlocks s)
   \<and> (pnode \<notin> set (vSendExpeditedTxs s) \<longrightarrow>
      vSendExpeditedTxs (RemovedNode s pnode) = vSendExpeditedTxs s)
   \<and> (pnode \<notin> set (vExpeditedUpstream s) \<longrightarrow>
      vExpeditedUpstream (RemovedNode s pnode) = vExpeditedUpstream s)
   \<and> (pnode \<notin> set (vSendExpeditedBlocks s) \<and> pnode \<notin> set (vSendExpeditedTxs s) \<and>
      pnode \<notin> set (vExpeditedUpstream s) \<longrightarrow> RemovedNode s pnode = s)
   \<and> (registry_inv s \<longrightarrow> RemovedNode (RemovedNode s pnode) pnode = RemovedNode s pnode)
   \<and> RemovedNode (RemovedNode (run_ops CConnMgr_ctor ops) pnode) pnode
      = RemovedNode (run_ops CConnMgr_ctor ops) pnode"
proof -
  have twice: "RemovedNode (RemovedNode t pnode) pnode = RemovedNode t pnode"
    if "registry_inv t" for t
  proof (rule RemovedNode_absent)
    from that show "pnode \<notin> set (vSendExpeditedBlocks (RemovedNode t pnode))"
      by (simp add: RemovedNode_vectors registry_inv_def)
    from that show "pnode \<notin> set (vSendExpeditedTxs (RemovedNode t pnode))"
      by (simp add: RemovedNode_vectors registry_inv_def)
    from that show "pnode \<notin> set (vExpeditedUpstream (RemovedNode t pnode))"
      by (simp add: RemovedNode_vectors registry_inv_def)
  qed
  have reach: "registry_inv (run_ops CConnMgr_ctor ops)"
    by (rule registry_inv_run_ops) (rule registry_inv_ctor)
  show ?thesis
    using twice [of s] twice [OF reach]
    by (simp add: RemovedNode_vectors remove1_idem RemovedNode_absent)
qed

text \<open>
  An instance: the registry sends blocks to peer 4 and listens to it. The first
  \<open>RemovedNode\<close> empties both vectors, the second changes nothing; peer 9 is in no
  vector and its removal changes nothing.
\<close>

theorem RemovedNode_idempotent_witness:
  "registry_inv (CConnMgr_ctor\<lparr>vSendExpeditedBlocks := [4], vExpeditedUpstream := [4]\<rparr>)
   \<and> vSendExpeditedBlocks (RemovedNode
        (CConnMgr_ctor\<lparr>vSendExpeditedBlocks := [4], vExpeditedUpstream := [4]\<rparr>) 4) = []
   \<and> vExpeditedUpstream (RemovedNode
        (CConnMgr_ctor\<lparr>vSendExpeditedBlocks := [4], vExpeditedUpstream := [4]\<rparr>) 4) = []
   \<and> RemovedNode (RemovedNode
        (CConnMgr_ctor\<lparr>vSendExpeditedBlocks := [4], vExpeditedUpstream := [4]\<rparr>) 4) 4
      = RemovedNode (CConnMgr_ctor\<lparr>vSendExpeditedBlocks := [4], vExpeditedUpstream := [4]\<rparr>) 4
   \<and> RemovedNode (CConnMgr_ctor\<lparr>vSendExpeditedBlocks := [4], vExpeditedUpstream := [4]\<rparr>) 9
      = CConnMgr_ctor\<lparr>vSendExpeditedBlocks := [4], vExpeditedUpstream := [4]\<rparr>"
proof -
  have inv: "registry_inv (CConnMgr_ctor\<lparr>vSendExpeditedBlocks := [4], vExpeditedUpstream := [4]\<rparr>)"
    by (simp add: registry_inv_def CConnMgr_ctor_def)
  have absent: "(9::nat) \<notin> set (vSendExpeditedBlocks
        (CConnMgr_ctor\<lparr>vSendExpeditedBlocks := [4], vExpeditedUpstream := [4]\<rparr>))
      \<and> 9 \<notin> set (vSendExpeditedTxs
        (CConnMgr_ctor\<lparr>vSendExpeditedBlocks := [4], vExpeditedUpstream := [4]\<rparr>))
      \<and> 9 \<notin> set (vExpeditedUpstream
        (CConnMgr_ctor\<lparr>vSendExpeditedBlocks := [4], vExpeditedUpstream := [4]\<rparr>))"
    by (simp add: CConnMgr_ctor_def)
  have vecs: "vSendExpeditedBlocks (RemovedNode
        (CConnMgr_ctor\<lparr>vSendExpeditedBlocks := [4], vExpeditedUpstream := [4]\<rparr>) 4) = []
      \<and> vExpeditedUpstream (RemovedNode
        (CConnMgr_ctor\<lparr>vSendExpeditedBlocks := [4], vExpeditedUpstream := [4]\<rparr>) 4) = []"
    by (simp add: RemovedNode_def RemoveNode_def vector_erase_def Let_def CConnMgr_ctor_def)
  from inv absent vecs
    RemovedNode_idempotent [of 4 "CConnMgr_ctor\<lparr>vSendExpeditedBlocks := [4], vExpeditedUpstream := [4]\<rparr>" "[]"]
    RemovedNode_idempotent [of 9 "CConnMgr_ctor\<lparr>vSendExpeditedBlocks := [4], vExpeditedUpstream := [4]\<rparr>" "[]"]
  show ?thesis by blast
qed

text \<open>
  C6. No registry operation creates a duplicate: when no vector holds a peer twice before
  \<open>EnableExpeditedSends\<close>, \<open>DisableExpeditedSends\<close>, \<open>RemovedNode\<close> or
  \<open>PushExpeditedRequest\<close>, none does afterwards; and after any sequence of these
  operations on the registry the constructor builds, no vector holds a peer twice.
\<close>

theorem registry_no_duplicates:
  "(registry_inv s \<longrightarrow>
      registry_inv (EnableExpeditedSends s pnode fBlocks fTxs fForceIfFull)
      \<and> registry_inv (DisableExpeditedSends s pnode fBlocks fTxs)
      \<and> registry_inv (RemovedNode s pnode)
      \<and> registry_inv (fst (PushExpeditedRequest te tc s pnode flags)))
   \<and> distinct (vSendExpeditedBlocks (run_ops CConnMgr_ctor ops))
   \<and> distinct (vSendExpeditedTxs (run_ops CConnMgr_ctor ops))
   \<and> distinct (vExpeditedUpstream (run_ops CConnMgr_ctor ops))"
proof -
  have step: "registry_inv (EnableExpeditedSends s pnode fBlocks fTxs fForceIfFull)
      \<and> registry_inv (DisableExpeditedSends s pnode fBlocks fTxs)
      \<and> registry_inv (RemovedNode s pnode)
      \<and> registry_inv (fst (PushExpeditedRequest te tc s pnode flags))"
    if "registry_inv s"
    using registry_inv_apply_op [OF that, of "OpEnable pnode fBlocks fTxs fForceIfFull"]
      registry_inv_apply_op [OF that, of "OpDisable pnode fBlocks fTxs"]
      registry_inv_apply_op [OF that, of "OpRemoved pnode"]
      registry_inv_apply_op [OF that, of "OpPushRequest te tc pnode flags"]
    by simp
  have "registry_inv (run_ops CConnMgr_ctor ops)"
    by (rule registry_inv_run_ops) (rule registry_inv_ctor)
  with step show ?thesis
    by (simp add: registry_inv_def)
qed

text \<open>
  An instance: peer 1 is enabled twice (the second time forced) and requested as upstream
  twice; each vector holds it once.
\<close>

theorem registry_no_duplicates_witness:
  "registry_inv (CConnMgr_ctor\<lparr>vSendExpeditedBlocks := [1], vExpeditedUpstream := [1]\<rparr>)
   \<and> registry_inv (EnableExpeditedSends
        (CConnMgr_ctor\<lparr>vSendExpeditedBlocks := [1], vExpeditedUpstream := [1]\<rparr>) 1 True True True)
   \<and> vSendExpeditedBlocks (EnableExpeditedSends
        (CConnMgr_ctor\<lparr>vSendExpeditedBlocks := [1], vExpeditedUpstream := [1]\<rparr>) 1 True True True) = [1]
   \<and> registry_inv (fst (PushExpeditedRequest True True
        (CConnMgr_ctor\<lparr>vSendExpeditedBlocks := [1], vExpeditedUpstream := [1]\<rparr>) 1 EXPEDITED_BLOCKS))
   \<and> vExpeditedUpstream (fst (PushExpeditedRequest True True
        (CConnMgr_ctor\<lparr>vSendExpeditedBlocks := [1], vExpeditedUpstream := [1]\<rparr>) 1 EXPEDITED_BLOCKS)) = [1]"
proof -
  have inv: "registry_inv (CConnMgr_ctor\<lparr>vSendExpeditedBlocks := [1], vExpeditedUpstream := [1]\<rparr>)"
    by (simp add: registry_inv_def CConnMgr_ctor_def)
  have b: "vSendExpeditedBlocks (EnableExpeditedSends
        (CConnMgr_ctor\<lparr>vSendExpeditedBlocks := [1], vExpeditedUpstream := [1]\<rparr>) 1 True True True) = [1]"
    by (simp add: EnableExpeditedSends_def AddNode_def Let_def CConnMgr_ctor_def)
  have u: "vExpeditedUpstream (fst (PushExpeditedRequest True True
        (CConnMgr_ctor\<lparr>vSendExpeditedBlocks := [1], vExpeditedUpstream := [1]\<rparr>) 1 EXPEDITED_BLOCKS)) = [1]"
    by (simp add: PushExpeditedRequest_def AddNode_def Let_def CConnMgr_ctor_def
        EXPEDITED_BLOCKS_def EXPEDITED_STOP_def)
  from inv b u
    registry_no_duplicates [of "CConnMgr_ctor\<lparr>vSendExpeditedBlocks := [1], vExpeditedUpstream := [1]\<rparr>"
      1 True True True True True EXPEDITED_BLOCKS "[]"]
  show ?thesis by blast
qed

text \<open>
  C7, as the code has it. \<open>ExpeditedNodeCounts\<close> returns the sizes of the three
  vectors, converted to 32 bits. For each category by itself: after a sequence of calls in
  which every enable of the category names a peer the vector does not hold and takes
  effect (it is forced, or the vector is below its maximum at that moment), and every
  disable of the category names a peer the vector holds, the size of the vector plus the
  number M of disables is its size before plus the number N of enables; when the vector
  was empty before, M is at most N and the count is N - M. The calls may mix categories
  and force flags. And whatever the sequence of operations, when no enable in it is
  forced, vectors within their maxima stay within them.
\<close>

theorem ExpeditedNodeCounts_after_sequence:
  "ExpeditedNodeCounts t =
     (of_nat (length (vSendExpeditedBlocks t)), of_nat (length (vSendExpeditedTxs t)),
      of_nat (length (vExpeditedUpstream t)))
   \<and> (blocks_seq s ops \<longrightarrow>
        length (vSendExpeditedBlocks (run_ops s ops)) + length (filter is_disable_blocks ops)
          = length (vSendExpeditedBlocks s) + length (filter is_enable_blocks ops))
   \<and> (txs_seq s ops \<longrightarrow>
        length (vSendExpeditedTxs (run_ops s ops)) + length (filter is_disable_txs ops)
          = length (vSendExpeditedTxs s) + length (filter is_enable_txs ops))
   \<and> (upstream_seq s ops \<longrightarrow>
        length (vExpeditedUpstream (run_ops s ops)) + length (filter is_stop ops)
          = length (vExpeditedUpstream s) + length (filter is_request ops))
   \<and> (blocks_seq s ops \<and> vSendExpeditedBlocks s = [] \<longrightarrow>
        length (filter is_disable_blocks ops) \<le> length (filter is_enable_blocks ops)
        \<and> fst (ExpeditedNodeCounts (run_ops s ops))
            = of_nat (length (filter is_enable_blocks ops) - length (filter is_disable_blocks ops)))
   \<and> (txs_seq s ops \<and> vSendExpeditedTxs s = [] \<longrightarrow>
        length (filter is_disable_txs ops) \<le> length (filter is_enable_txs ops)
        \<and> fst (snd (ExpeditedNodeCounts (run_ops s ops)))
            = of_nat (length (filter is_enable_txs ops) - length (filter is_disable_txs ops)))
   \<and> (upstream_seq s ops \<and> vExpeditedUpstream s = [] \<longrightarrow>
        length (filter is_stop ops) \<le> length (filter is_request ops)
        \<and> snd (snd (ExpeditedNodeCounts (run_ops s ops)))
            = of_nat (length (filter is_request ops) - length (filter is_stop ops)))
   \<and> ((\<forall>x \<in> set ops. \<not> is_forced x) \<and>
      length (vSendExpeditedBlocks s) \<le> nExpeditedBlocksMax s \<and>
      length (vSendExpeditedTxs s) \<le> nExpeditedTxsMax s \<longrightarrow>
        length (vSendExpeditedBlocks (run_ops s ops)) \<le> nExpeditedBlocksMax s \<and>
        length (vSendExpeditedTxs (run_ops s ops)) \<le> nExpeditedTxsMax s)"
proof -
  have sizes: "ExpeditedNodeCounts t =
     (of_nat (length (vSendExpeditedBlocks t)), of_nat (length (vSendExpeditedTxs t)),
      of_nat (length (vExpeditedUpstream t)))" for t
    by (simp add: ExpeditedNodeCounts_def)
  have b: "length (vSendExpeditedBlocks (run_ops s ops)) + length (filter is_disable_blocks ops)
          = length (vSendExpeditedBlocks s) + length (filter is_enable_blocks ops)"
    if "blocks_seq s ops"
    using that by (rule blocks_seq_count)
  have x: "length (vSendExpeditedTxs (run_ops s ops)) + length (filter is_disable_txs ops)
          = length (vSendExpeditedTxs s) + length (filter is_enable_txs ops)"
    if "txs_seq s ops"
    using that by (rule txs_seq_count)
  have u: "length (vExpeditedUpstream (run_ops s ops)) + length (filter is_stop ops)
          = length (vExpeditedUpstream s) + length (filter is_request ops)"
    if "upstream_seq s ops"
    using that by (rule upstream_seq_count)
  have b0: "length (filter is_disable_blocks ops) \<le> length (filter is_enable_blocks ops)
        \<and> fst (ExpeditedNodeCounts (run_ops s ops))
            = of_nat (length (filter is_enable_blocks ops) - length (filter is_disable_blocks ops))"
    if "blocks_seq s ops" and "vSendExpeditedBlocks s = []"
  proof -
    from b [OF that(1)] that(2)
    have "length (vSendExpeditedBlocks (run_ops s ops)) + length (filter is_disable_blocks ops)
        = length (filter is_enable_blocks ops)"
      by simp
    then have "length (filter is_disable_blocks ops) \<le> length (filter is_enable_blocks ops)"
      and "length (vSendExpeditedBlocks (run_ops s ops))
        = length (filter is_enable_blocks ops) - length (filter is_disable_blocks ops)"
      by arith+
    then show ?thesis by (simp add: sizes)
  qed
  have x0: "length (filter is_disable_txs ops) \<le> length (filter is_enable_txs ops)
        \<and> fst (snd (ExpeditedNodeCounts (run_ops s ops)))
            = of_nat (length (filter is_enable_txs ops) - length (filter is_disable_txs ops))"
    if "txs_seq s ops" and "vSendExpeditedTxs s = []"
  proof -
    from x [OF that(1)] that(2)
    have "length (vSendExpeditedTxs (run_ops s ops)) + length (filter is_disable_txs ops)
        = length (filter is_enable_txs ops)"
      by simp
    then have "length (filter is_disable_txs ops) \<le> length (filter is_enable_txs ops)"
      and "length (vSendExpeditedTxs (run_ops s ops))
        = length (filter is_enable_txs ops) - length (filter is_disable_txs ops)"
      by arith+
    then show ?thesis by (simp add: sizes)
  qed
  have u0: "length (filter is_stop ops) \<le> length (filter is_request ops)
        \<and> snd (snd (ExpeditedNodeCounts (run_ops s ops)))
            = of_nat (length (filter is_request ops) - length (filter is_stop ops))"
    if "upstream_seq s ops" and "vExpeditedUpstream s = []"
  proof -
    from u [OF that(1)] that(2)
    have "length (vExpeditedUpstream (run_ops s ops)) + length (filter is_stop ops)
        = length (filter is_request ops)"
      by simp
    then have "length (filter is_stop ops) \<le> length (filter is_request ops)"
      and "length (vExpeditedUpstream (run_ops s ops))
        = length (filter is_request ops) - length (filter is_stop ops)"
      by arith+
    then show ?thesis by (simp add: sizes)
  qed
  have cap: "length (vSendExpeditedBlocks (run_ops s ops)) \<le> nExpeditedBlocksMax s \<and>
        length (vSendExpeditedTxs (run_ops s ops)) \<le> nExpeditedTxsMax s"
    if "\<forall>x \<in> set ops. \<not> is_forced x"
      and "length (vSendExpeditedBlocks s) \<le> nExpeditedBlocksMax s"
      and "length (vSendExpeditedTxs s) \<le> nExpeditedTxsMax s"
    using that by (rule unforced_within_max)
  from sizes [of t] b x u b0 x0 u0 cap show ?thesis
    by blast
qed

text \<open>
  An instance, with both maxima set to 1. Peer 1 is enabled for both categories and
  disabled for blocks, peer 2 is enabled for blocks, peer 3 is enabled for txs with
  force, and peer 4 is requested as upstream. Two enables and one disable leave one peer
  for blocks, two enables leave two peers for txs, and one request leaves one upstream
  peer.
\<close>

theorem ExpeditedNodeCounts_after_sequence_witness:
  "blocks_seq (CConnMgr_ctor\<lparr>nExpeditedBlocksMax := 1, nExpeditedTxsMax := 1\<rparr>)
      [OpEnable 1 True True False, OpDisable 1 True False, OpEnable 2 True False False,
       OpEnable 3 False True True, OpPushRequest True True 4 EXPEDITED_BLOCKS]
   \<and> txs_seq (CConnMgr_ctor\<lparr>nExpeditedBlocksMax := 1, nExpeditedTxsMax := 1\<rparr>)
      [OpEnable 1 True True False, OpDisable 1 True False, OpEnable 2 True False False,
       OpEnable 3 False True True, OpPushRequest True True 4 EXPEDITED_BLOCKS]
   \<and> upstream_seq (CConnMgr_ctor\<lparr>nExpeditedBlocksMax := 1, nExpeditedTxsMax := 1\<rparr>)
      [OpEnable 1 True True False, OpDisable 1 True False, OpEnable 2 True False False,
       OpEnable 3 False True True, OpPushRequest True True 4 EXPEDITED_BLOCKS]
   \<and> ExpeditedNodeCounts (run_ops (CConnMgr_ctor\<lparr>nExpeditedBlocksMax := 1, nExpeditedTxsMax := 1\<rparr>)
      [OpEnable 1 True True False, OpDisable 1 True False, OpEnable 2 True False False,
       OpEnable 3 False True True, OpPushRequest True True 4 EXPEDITED_BLOCKS]) = (1, 2, 1)"
proof -
  define s1 where "s1 = CConnMgr_ctor\<lparr>nExpeditedBlocksMax := 1, nExpeditedTxsMax := 1\<rparr>"
  define ops where
    "ops = [OpEnable 1 True True False, OpDisable 1 True False, OpEnable 2 True False False,
       OpEnable 3 False True True, OpPushRequest True True 4 EXPEDITED_BLOCKS]"
  have f: "blocks_seq s1 ops" "txs_seq s1 ops" "upstream_seq s1 ops"
    unfolding s1_def ops_def by code_simp+
  have e: "vSendExpeditedBlocks s1 = []" "vSendExpeditedTxs s1 = []" "vExpeditedUpstream s1 = []"
    by (simp_all add: s1_def CConnMgr_ctor_def)
  have n: "length (filter is_enable_blocks ops) = 2" "length (filter is_disable_blocks ops) = 1"
    "length (filter is_enable_txs ops) = 2" "length (filter is_disable_txs ops) = 0"
    "length (filter is_request ops) = 1" "length (filter is_stop ops) = 0"
    by (simp_all add: ops_def EXPEDITED_BLOCKS_def EXPEDITED_STOP_def)
  note th = ExpeditedNodeCounts_after_sequence [where t = s1 and s = s1 and ops = ops]
  from th f e n have "fst (ExpeditedNodeCounts (run_ops s1 ops)) = 1"
    and "fst (snd (ExpeditedNodeCounts (run_ops s1 ops))) = 2"
    and "snd (snd (ExpeditedNodeCounts (run_ops s1 ops))) = 1"
    by simp_all
  then have "ExpeditedNodeCounts (run_ops s1 ops) = (1, 2, 1)"
    by (simp add: prod_eq_iff)
  with f show ?thesis
    unfolding s1_def ops_def by blast
qed

text \<open>
  The claim as written fails once N - M is above the maximum. From the constructor's
  registry (both maxima 32), 33 enables on distinct peers and no disable: without
  \<open>fForceIfFull\<close> the counts are 32, not N - M = 33; with it they are 33, above
  the maximum.
\<close>

theorem ExpeditedNodeCounts_counterexample:
  "distinct [0..<33]
   \<and> length (filter is_enable_blocks (enable_all False [0..<33])) = 33
   \<and> length (filter is_disable_blocks (enable_all False [0..<33])) = 0
   \<and> ExpeditedNodeCounts (run_ops CConnMgr_ctor (enable_all False [0..<33])) = (32, 32, 0)
   \<and> length (filter is_enable_blocks (enable_all True [0..<33])) = 33
   \<and> length (filter is_disable_blocks (enable_all True [0..<33])) = 0
   \<and> ExpeditedNodeCounts (run_ops CConnMgr_ctor (enable_all True [0..<33])) = (33, 33, 0)
   \<and> nExpeditedBlocksMax (run_ops CConnMgr_ctor (enable_all True [0..<33])) = 32
   \<and> nExpeditedTxsMax (run_ops CConnMgr_ctor (enable_all True [0..<33])) = 32"
  by code_simp

section \<open>The claims about the script check and the pool of queues\<close>

text \<open>
  C8. \<open>swap\<close> exchanges the six fields of the two script checks: afterwards each
  object is what the other was, field by field, and a second \<open>swap\<close> gives both
  objects their first values back.
\<close>

theorem CScriptCheck_swap_exchanges:
  "CScriptCheck_swap a b = (b, a)
   \<and> scriptPubKey (fst (CScriptCheck_swap a b)) = scriptPubKey b
   \<and> ptxTo (fst (CScriptCheck_swap a b)) = ptxTo b
   \<and> nIn (fst (CScriptCheck_swap a b)) = nIn b
   \<and> nFlags (fst (CScriptCheck_swap a b)) = nFlags b
   \<and> cacheStore (fst (CScriptCheck_swap a b)) = cacheStore b
   \<and> error (fst (CScriptCheck_swap a b)) = error b
   \<and> scriptPubKey (snd (CScriptCheck_swap a b)) = scriptPubKey a
   \<and> ptxTo (snd (CScriptCheck_swap a b)) = ptxTo a
   \<and> nIn (snd (CScriptCheck_swap a b)) = nIn a
   \<and> nFlags (snd (CScriptCheck_swap a b)) = nFlags a
   \<and> cacheStore (snd (CScriptCheck_swap a b)) = cacheStore a
   \<and> error (snd (CScriptCheck_swap a b)) = error a
   \<and> CScriptCheck_swap (fst (CScriptCheck_swap a b)) (snd (CScriptCheck_swap a b)) = (a, b)"
proof -
  have "CScriptCheck_swap x y = (y, x)" for x y
    by (cases x, cases y) (simp add: CScriptCheck_swap_def)
  then show ?thesis by simp
qed

lemma add_calls_vector: "vScriptCheckQueues (add_calls s qs) = vScriptCheckQueues s @ qs"
  by (induction qs arbitrary: s) (simp_all add: Add_def)

text \<open>
  C9. After a sequence of \<open>Add\<close> calls on an empty pool the vector holds as many
  queues as there were calls, and \<open>Size\<close> returns that number modulo 256; after more
  than 255 calls the value returned is not the number of registered queues.
\<close>

theorem Size_truncates:
  "length (vScriptCheckQueues (add_calls CAllScriptCheckQueues_ctor qs)) = length qs
   \<and> unat (Size (add_calls CAllScriptCheckQueues_ctor qs)) = length qs mod 256
   \<and> (255 < length qs \<longrightarrow>
      unat (Size (add_calls CAllScriptCheckQueues_ctor qs))
        \<noteq> length (vScriptCheckQueues (add_calls CAllScriptCheckQueues_ctor qs)))"
proof -
  have len: "length (vScriptCheckQueues (add_calls CAllScriptCheckQueues_ctor qs)) = length qs"
    by (simp add: add_calls_vector CAllScriptCheckQueues_ctor_def)
  have val: "unat (Size (add_calls CAllScriptCheckQueues_ctor qs)) = length qs mod 256"
    by (simp add: Size_def len unat_of_nat)
  have "length qs mod 256 < 256" by simp
  then have "255 < length qs \<longrightarrow> length qs mod 256 \<noteq> length qs" by arith
  with len val show ?thesis by simp
qed

text \<open>An instance: after 256 calls of \<open>Add\<close> the pool reports size 0.\<close>

theorem Size_truncates_witness:
  "255 < length (replicate 256 (0::nat))
   \<and> length (vScriptCheckQueues (add_calls CAllScriptCheckQueues_ctor (replicate 256 0))) = 256
   \<and> unat (Size (add_calls CAllScriptCheckQueues_ctor (replicate 256 0))) = 0"
  using Size_truncates [of "replicate 256 0"] by simp

text \<open>
  C10. The constructor reads \<open>txToIn.vin[nInIn]\<close> and
  \<open>txFromIn.vout[txToIn.vin[nInIn].prevout.n]\<close> without a check. When both indices are
  inside their vectors it builds the script check that holds the referenced output's
  \<open>scriptPubKey\<close>, the address of the spending transaction, the arguments and the error
  \<open>SCRIPT_ERR_UNKNOWN_ERROR\<close>; when one of them is outside there is no defined result.
\<close>

theorem CScriptCheck_ctor_defined:
  "(unat nInIn < length (vin txToIn) \<and>
    unat (outpoint_n (prevout (vin txToIn ! unat nInIn))) < length (vout txFromIn) \<longrightarrow>
      CScriptCheck_ctor txFromIn ptxToIn txToIn nInIn nFlagsIn cacheIn =
        Inr \<lparr> scriptPubKey =
                txout_scriptPubKey (vout txFromIn ! unat (outpoint_n (prevout (vin txToIn ! unat nInIn)))),
              ptxTo = ptxToIn, nIn = nInIn, nFlags = nFlagsIn, cacheStore = cacheIn,
              error = SCRIPT_ERR_UNKNOWN_ERROR \<rparr>)
   \<and> (\<not> unat nInIn < length (vin txToIn) \<longrightarrow>
      CScriptCheck_ctor txFromIn ptxToIn txToIn nInIn nFlagsIn cacheIn = Inl VinOutOfRange)
   \<and> (unat nInIn < length (vin txToIn) \<and>
      \<not> unat (outpoint_n (prevout (vin txToIn ! unat nInIn))) < length (vout txFromIn) \<longrightarrow>
      CScriptCheck_ctor txFromIn ptxToIn txToIn nInIn nFlagsIn cacheIn = Inl VoutOutOfRange)"
  by (simp add: CScriptCheck_ctor_def Let_def)

text \<open>
  An instance: a coin with two outputs and a transaction whose only input spends output
  1. Input 0 gives the script of output 1; input 1 does not exist.
\<close>

theorem CScriptCheck_ctor_defined_witness:
  "CScriptCheck_ctor
      \<lparr>vout = [\<lparr>nValue = 5, txout_scriptPubKey = [1]\<rparr>, \<lparr>nValue = 6, txout_scriptPubKey = [2, 3]\<rparr>]\<rparr>
      64
      \<lparr>vin = [\<lparr>prevout = \<lparr>outpoint_hash = 0, outpoint_n = 1\<rparr>, scriptSig = [], nSequence = 0\<rparr>],
        tx_vout = []\<rparr>
      0 3 True
    = Inr \<lparr>scriptPubKey = [2, 3], ptxTo = 64, nIn = 0, nFlags = 3, cacheStore = True,
           error = SCRIPT_ERR_UNKNOWN_ERROR\<rparr>
   \<and> CScriptCheck_ctor
      \<lparr>vout = [\<lparr>nValue = 5, txout_scriptPubKey = [1]\<rparr>, \<lparr>nValue = 6, txout_scriptPubKey = [2, 3]\<rparr>]\<rparr>
      64
      \<lparr>vin = [\<lparr>prevout = \<lparr>outpoint_hash = 0, outpoint_n = 1\<rparr>, scriptSig = [], nSequence = 0\<rparr>],
        tx_vout = []\<rparr>
      1 3 True
    = Inl VinOutOfRange"
  using CScriptCheck_ctor_defined
    [of 0 "\<lparr>vin = [\<lparr>prevout = \<lparr>outpoint_hash = 0, outpoint_n = 1\<rparr>, scriptSig = [], nSequence = 0\<rparr>],
        tx_vout = []\<rparr>"
      "\<lparr>vout = [\<lparr>nValue = 5, txout_scriptPubKey = [1]\<rparr>, \<lparr>nValue = 6, txout_scriptPubKey = [2, 3]\<rparr>]\<rparr>"
      64 3 True]
    CScriptCheck_ctor_defined
    [of 1 "\<lparr>vin = [\<lparr>prevout = \<lparr>outpoint_hash = 0, outpoint_n = 1\<rparr>, scriptSig = [], nSequence = 0\<rparr>],
        tx_vout = []\<rparr>"
      "\<lparr>vout = [\<lparr>nValue = 5, txout_scriptPubKey = [1]\<rparr>, \<lparr>nValue = 6, txout_scriptPubKey = [2, 3]\<rparr>]\<rparr>"
      64 3 True]
  by simp

section \<open>The claim about the validation sessions\<close>



end
